theory Spec2Isabelle
  imports Complex_Main
begin

section \<open>Poisson binomial distribution: exact and approximate PMF\<close>

text \<open>
  A shallow embedding of \<^verbatim>\<open>analysis/poisson_binomial.py\<close>. Python floats are
  idealised as the reals, so every statement below is one of exact arithmetic;
  the non-finite values that numpy produces where a real has no value (the
  square root of a negative number, a division by zero) are kept as values of
  their own in \<open>npfloat\<close>. A numpy array is a list, and its integers are
  unbounded; \<open>int64_range\<close> marks the integers that numpy's 64-bit arrays hold.
\<close>

subsection \<open>The data model\<close>

text \<open>
  \<^verbatim>\<open>class PMF\<close>: \<open>start\<close> is the least value of the distribution, and the i-th
  element of \<open>probabilities\<close> is the probability of the value \<open>i + start\<close>.
\<close>

record PMF =
  start :: int
  probabilities :: "real list"

subsection \<open>Exact computation: \<^verbatim>\<open>compute_pmf\<close>\<close>

text \<open>
  The body of the loop of \<^verbatim>\<open>compute_pmf\<close>:
  \<^verbatim>\<open>
    next_poisson_bin_probs = np.zeros(len(poisson_bin_probs) + 1)
    next_poisson_bin_probs[:-1] = poisson_bin_probs * (1 - p)
    next_poisson_bin_probs[1:] += poisson_bin_probs * p
  \<close>
  The first assignment fills all but the last cell of the zero vector, the
  second adds to all but the first.
\<close>

definition next_poisson_bin_probs :: "real list \<Rightarrow> real \<Rightarrow> real list" where
  "next_poisson_bin_probs poisson_bin_probs p =
     map2 (+) (map (\<lambda>c. c * (1 - p)) poisson_bin_probs @ [0])
              (0 # map (\<lambda>c. c * p) poisson_bin_probs)"

text \<open>The loop \<^verbatim>\<open>for p in probabilities\<close>, with the running vector as accumulator.\<close>

fun pmf_loop :: "real list \<Rightarrow> real list \<Rightarrow> real list" where
  "pmf_loop poisson_bin_probs [] = poisson_bin_probs"
| "pmf_loop poisson_bin_probs (p # ps) =
     pmf_loop (next_poisson_bin_probs poisson_bin_probs p) ps"

definition compute_pmf :: "real list \<Rightarrow> PMF" where
  "compute_pmf ps = \<lparr>start = 0, probabilities = pmf_loop [1] ps\<rparr>"

subsection \<open>The specification's view of the exact computation\<close>

text \<open>
  The update the specification describes: a vector one element longer, where the
  coefficient \<open>c\<close> at position \<open>i\<close> contributes \<open>c * (1 - p)\<close> to position \<open>i\<close> and
  \<open>c * p\<close> to position \<open>i + 1\<close>. Position \<open>i\<close> of the new vector therefore receives
  the first contribution of its own coefficient and the second of the one before.
\<close>

definition spec_trial_update :: "real list \<Rightarrow> real \<Rightarrow> real list" where
  "spec_trial_update cs p =
     map (\<lambda>i. (if i < length cs then cs ! i * (1 - p) else 0)
             + (if 0 < i then cs ! (i - 1) * p else 0))
         [0 ..< length cs + 1]"

definition spec_pmf_coefficients :: "real list \<Rightarrow> real list" where
  "spec_pmf_coefficients ps = foldl spec_trial_update [1] ps"

text \<open>The value at \<open>x\<close> of the polynomial with coefficients \<open>cs\<close>, lowest degree first.\<close>

fun poly_value :: "real list \<Rightarrow> real \<Rightarrow> real" where
  "poly_value [] x = 0"
| "poly_value (c # cs) x = c + x * poly_value cs x"

text \<open>The probability generating function \<open>\<Prod>p. (1 - p + p * x)\<close> of the trials.\<close>

definition pgf :: "real list \<Rightarrow> real \<Rightarrow> real" where
  "pgf ps x = prod_list (map (\<lambda>p. 1 - p + p * x) ps)"

subsection \<open>numpy's floating-point results\<close>

text \<open>
  Where a real number has no value to offer, numpy returns a non-finite float
  and goes on (with a warning, not an exception): \<^verbatim>\<open>np.sqrt\<close> of a negative
  number is \<^verbatim>\<open>nan\<close>, and a division by zero is \<^verbatim>\<open>nan\<close> for \<^verbatim>\<open>0/0\<close> and an
  infinity of the sign of the dividend otherwise.
\<close>

datatype npfloat = Finite real | PosInf | NegInf | NaN

definition np_sqrt :: "real \<Rightarrow> npfloat" where
  "np_sqrt x = (if x < 0 then NaN else Finite (sqrt x))"

text \<open>\<^verbatim>\<open>std**3\<close>.\<close>

fun np_cube :: "npfloat \<Rightarrow> npfloat" where
  "np_cube (Finite x) = Finite (x ^ 3)"
| "np_cube PosInf = PosInf"
| "np_cube NegInf = NegInf"
| "np_cube NaN = NaN"

text \<open>The division of a finite float by \<^verbatim>\<open>std**3\<close>.\<close>

fun np_true_divide :: "real \<Rightarrow> npfloat \<Rightarrow> npfloat" where
  "np_true_divide a (Finite b) =
     (if b \<noteq> 0 then Finite (a / b)
      else if a = 0 then NaN
      else if 0 < a then PosInf
      else NegInf)"
| "np_true_divide a PosInf = Finite 0"
| "np_true_divide a NegInf = Finite 0"
| "np_true_divide a NaN = NaN"

subsection \<open>Moments: \<^verbatim>\<open>compute_exp_std_skewness\<close>\<close>

definition compute_exp_std_skewness :: "real list \<Rightarrow> real \<times> npfloat \<times> npfloat" where
  "compute_exp_std_skewness ps =
     (let exp_sum = sum_list ps;
          std = np_sqrt (sum_list (map (\<lambda>p. p * (1 - p)) ps));
          skewness =
            np_true_divide (sum_list (map (\<lambda>p. p * (1 - p) * (1 - 2 * p)) ps)) (np_cube std)
      in (exp_sum, std, skewness))"

subsection \<open>Approximation: \<^verbatim>\<open>compute_pmf_approximation\<close>\<close>

text \<open>
  Python's \<^verbatim>\<open>round\<close> and \<^verbatim>\<open>np.round\<close> both round a half to the even neighbour.
\<close>

definition round_half_even :: "real \<Rightarrow> int" where
  "round_half_even x =
     (let f = \<lfloor>x\<rfloor>; d = x - of_int f
      in if d < 1 / 2 then f
         else if 1 / 2 < d then f + 1
         else if even f then f
         else f + 1)"

text \<open>
  \<^verbatim>\<open>G = lambda x: (norm.cdf(x) + skewness * (1 - x * x) * norm.pdf(x) / 6)\<close>.
  The functions \<^verbatim>\<open>norm.cdf\<close> and \<^verbatim>\<open>norm.pdf\<close> come from scipy, not from this
  repository; they are the parameters \<open>cdf\<close> and \<open>pdf\<close> of the model.
\<close>

definition G :: "(real \<Rightarrow> real) \<Rightarrow> (real \<Rightarrow> real) \<Rightarrow> real \<Rightarrow> real \<Rightarrow> real" where
  "G cdf pdf skewness x = cdf x + skewness * (1 - x * x) * pdf x / 6"

text \<open>
  \<^verbatim>\<open>np.arange\<close> on Python integers builds an array of 64-bit integers, and
  \<^verbatim>\<open>int(np.floor(x))\<close> needs a finite \<open>x\<close>: outside this range the calls raise instead
  of returning.
\<close>

definition int64_range :: "int \<Rightarrow> bool" where
  "int64_range k \<longleftrightarrow> - (2 ^ 63) \<le> k \<and> k < 2 ^ 63"

text \<open>\<^verbatim>\<open>np.arange(a, b)\<close> on integers: \<open>a, a + 1, \<dots>, b - 1\<close>, empty when \<open>b \<le> a\<close>.\<close>

definition np_arange :: "int \<Rightarrow> int \<Rightarrow> int list" where
  "np_arange a b = [a .. b - 1]"

text \<open>\<^verbatim>\<open>np.clip(a, a_min, a_max)\<close> on one element.\<close>

definition np_clip :: "real \<Rightarrow> real \<Rightarrow> real \<Rightarrow> real" where
  "np_clip a a_min a_max = min (max a a_min) a_max"

text \<open>\<^verbatim>\<open>np.diff(a)\<close> is \<^verbatim>\<open>a[1:] - a[:-1]\<close>; it is empty for fewer than two elements.\<close>

definition np_diff :: "real list \<Rightarrow> real list" where
  "np_diff a = map2 (-) (tl a) (butlast a)"

definition compute_pmf_approximation ::
  "(real \<Rightarrow> real) \<Rightarrow> (real \<Rightarrow> real) \<Rightarrow> real \<Rightarrow> real \<Rightarrow> real \<Rightarrow> int \<Rightarrow> PMF" where
  "compute_pmf_approximation cdf pdf mean sigma skewness n =
     (if sigma = 0 then \<lparr>start = round_half_even mean, probabilities = [1]\<rparr>
      else
        let start' = max 0 \<lfloor>mean - 8 * sigma\<rfloor>;
            end' = min n (round_half_even (mean + 8 * sigma));
            xs = np_arange (start' - 1) (end' + 1);
            cdf_values = map (\<lambda>x. G cdf pdf skewness ((of_int x + 0.5 - mean) / sigma)) xs;
            cdf_values = map (\<lambda>v. np_clip v 0 1) cdf_values
        in \<lparr>start = start', probabilities = np_diff cdf_values\<rparr>)"

subsection \<open>The standard normal distribution\<close>

text \<open>
  The functions scipy supplies for \<open>cdf\<close> and \<open>pdf\<close>. \<^verbatim>\<open>norm.pdf\<close> is the density
  \<open>exp (- x\<^sup>2 / 2) / sqrt (2 * pi)\<close>. \<^verbatim>\<open>norm.cdf\<close> is its distribution function, here
  given by its power series at 0,
  \<open>1 / 2 + (\<Sum>k. (- 1 / 2) ^ k * x ^ (2 * k + 1) / (k! * (2 * k + 1))) / sqrt (2 * pi)\<close>;
  it is the function with value \<open>1 / 2\<close> at 0 whose derivative is the density
  (\<open>norm_cdf_0\<close> and \<open>norm_cdf_deriv\<close> below).
\<close>

definition norm_pdf :: "real \<Rightarrow> real" where
  "norm_pdf x = exp (- (x * x) / 2) / sqrt (2 * pi)"

definition cdf_series_coeff :: "nat \<Rightarrow> real" where
  "cdf_series_coeff k = (- 1 / 2) ^ k / (fact k * (2 * of_nat k + 1))"

definition norm_cdf :: "real \<Rightarrow> real" where
  "norm_cdf x = 1 / 2 + x * (\<Sum>k. cdf_series_coeff k * (x * x) ^ k) / sqrt (2 * pi)"

section \<open>Properties of the exact computation\<close>

lemma length_next_poisson_bin_probs:
  "length (next_poisson_bin_probs cs p) = length cs + 1"
  by (simp add: next_poisson_bin_probs_def)

lemma poly_value_append_zero: "poly_value (cs @ [0]) x = poly_value cs x"
  by (induction cs) simp_all

lemma poly_value_scale: "poly_value (map (\<lambda>c. c * k) cs) x = k * poly_value cs x"
  by (induction cs) (simp_all add: algebra_simps)

lemma poly_value_map2_add:
  "length as = length bs \<Longrightarrow>
   poly_value (map2 (+) as bs) x = poly_value as x + poly_value bs x"
  by (induction as bs rule: list_induct2) (simp_all add: algebra_simps)

text \<open>One trial multiplies the generating function by \<open>1 - p + p * x\<close>.\<close>

lemma poly_value_next:
  "poly_value (next_poisson_bin_probs cs p) x = (1 - p + p * x) * poly_value cs x"
proof -
  have "poly_value (next_poisson_bin_probs cs p) x
          = poly_value (map (\<lambda>c. c * (1 - p)) cs @ [0]) x
            + poly_value (0 # map (\<lambda>c. c * p) cs) x"
    unfolding next_poisson_bin_probs_def by (rule poly_value_map2_add) simp
  also have "\<dots> = (1 - p) * poly_value cs x + x * (p * poly_value cs x)"
    by (simp add: poly_value_append_zero poly_value_scale)
  finally show ?thesis by (simp add: algebra_simps)
qed

lemma poly_value_pmf_loop:
  "poly_value (pmf_loop cs ps) x = poly_value cs x * pgf ps x"
  by (induction ps arbitrary: cs) (simp_all add: pgf_def poly_value_next algebra_simps)

text \<open>The loop body is the update of the specification, position by position.\<close>

lemma next_is_spec_trial_update:
  "next_poisson_bin_probs cs p = spec_trial_update cs p"
proof (rule nth_equalityI)
  show "length (next_poisson_bin_probs cs p) = length (spec_trial_update cs p)"
    by (simp add: next_poisson_bin_probs_def spec_trial_update_def)
next
  fix i assume "i < length (next_poisson_bin_probs cs p)"
  then have i: "i < length cs + 1"
    by (simp add: next_poisson_bin_probs_def)
  have l: "(map (\<lambda>c. c * (1 - p)) cs @ [0]) ! i = (if i < length cs then cs ! i * (1 - p) else 0)"
    using i by (simp add: nth_append)
  have r: "(0 # map (\<lambda>c. c * p) cs) ! i = (if 0 < i then cs ! (i - 1) * p else 0)"
    using i by (cases i) simp_all
  have "next_poisson_bin_probs cs p ! i
          = (map (\<lambda>c. c * (1 - p)) cs @ [0]) ! i + (0 # map (\<lambda>c. c * p) cs) ! i"
    using i by (simp add: next_poisson_bin_probs_def)
  also have "\<dots> = spec_trial_update cs p ! i"
    using i unfolding l r spec_trial_update_def by (simp del: upt_Suc)
  finally show "next_poisson_bin_probs cs p ! i = spec_trial_update cs p ! i" .
qed

lemma pmf_loop_is_foldl:
  "pmf_loop cs ps = foldl spec_trial_update cs ps"
  by (induction ps arbitrary: cs) (simp_all add: next_is_spec_trial_update)

lemma length_pmf_loop: "length (pmf_loop cs ps) = length cs + length ps"
  by (induction ps arbitrary: cs) (simp_all add: length_next_poisson_bin_probs)

lemma poly_value_one: "poly_value cs 1 = sum_list cs"
  by (induction cs) simp_all

lemma pgf_one: "pgf ps 1 = 1"
  by (induction ps) (simp_all add: pgf_def)

lemma sum_list_pmf_loop: "sum_list (pmf_loop cs ps) = sum_list cs"
  using poly_value_pmf_loop [of cs ps 1] by (simp add: poly_value_one pgf_one)

text \<open>
  Claim C1. For every sequence of trial probabilities, \<open>compute_pmf\<close> returns the
  coefficient vector that the specification describes: starting from \<open>[1]\<close>, each
  trial \<open>p\<close> replaces the vector by one that is one element longer, in which the
  coefficient \<open>c\<close> at position \<open>i\<close> has contributed \<open>c * (1 - p)\<close> to position \<open>i\<close>
  and \<open>c * p\<close> to position \<open>i + 1\<close>. The result is the coefficient vector of the
  product of the polynomials \<open>1 - p + p * x\<close>: as a polynomial in \<open>x\<close> it has the
  value of that product everywhere. In particular \<open>compute_pmf [0.5]\<close> is
  \<open>PMF(0, [0.5, 0.5])\<close> and \<open>compute_pmf [1, 1]\<close> is \<open>PMF(0, [0, 0, 1])\<close>.
\<close>

theorem compute_pmf_is_pgf_coefficients:
  "probabilities (compute_pmf ps) = spec_pmf_coefficients ps
   \<and> length (spec_trial_update cs p) = length cs + 1
   \<and> (\<forall>x. poly_value (probabilities (compute_pmf ps)) x = pgf ps x)
   \<and> compute_pmf [1 / 2] = \<lparr>start = 0, probabilities = [1 / 2, 1 / 2]\<rparr>
   \<and> compute_pmf [1, 1] = \<lparr>start = 0, probabilities = [0, 0, 1]\<rparr>"
proof -
  have "probabilities (compute_pmf ps) = spec_pmf_coefficients ps"
    by (simp add: compute_pmf_def spec_pmf_coefficients_def pmf_loop_is_foldl)
  moreover have "length (spec_trial_update cs p) = length cs + 1"
    by (simp add: spec_trial_update_def)
  moreover have "\<forall>x. poly_value (probabilities (compute_pmf ps)) x = pgf ps x"
    by (simp add: compute_pmf_def poly_value_pmf_loop)
  moreover have "compute_pmf [1 / 2] = \<lparr>start = 0, probabilities = [1 / 2, 1 / 2]\<rparr>"
    by (simp add: compute_pmf_def next_poisson_bin_probs_def)
  moreover have "compute_pmf [1, 1] = \<lparr>start = 0, probabilities = [0, 0, 1]\<rparr>"
    by (simp add: compute_pmf_def next_poisson_bin_probs_def)
  ultimately show ?thesis by blast
qed

text \<open>
  Claim C2. For every sequence of \<open>n\<close> trial probabilities, \<open>compute_pmf\<close> returns
  a PMF with \<open>start = 0\<close> and exactly \<open>n + 1\<close> probabilities, whose sum is 1 in
  exact arithmetic; for the empty sequence it returns \<open>PMF(0, [1])\<close>.
\<close>

theorem compute_pmf_shape_and_total:
  "start (compute_pmf ps) = 0
   \<and> length (probabilities (compute_pmf ps)) = length ps + 1
   \<and> sum_list (probabilities (compute_pmf ps)) = 1
   \<and> compute_pmf [] = \<lparr>start = 0, probabilities = [1]\<rparr>"
  by (simp add: compute_pmf_def length_pmf_loop sum_list_pmf_loop)

section \<open>Properties of the approximation\<close>

subsection \<open>Arrays and rounding\<close>

lemma length_np_diff: "length (np_diff a) = length a - 1"
  by (simp add: np_diff_def)

lemma nth_np_diff: "Suc i < length a \<Longrightarrow> np_diff a ! i = a ! Suc i - a ! i"
  by (simp add: np_diff_def nth_tl nth_butlast)

lemma np_diff_Cons2: "np_diff (x # y # zs) = (y - x) # np_diff (y # zs)"
  by (simp add: np_diff_def)

lemma sum_list_np_diff: "a \<noteq> [] \<Longrightarrow> sum_list (np_diff a) = last a - hd a"
proof (induction a rule: induct_list012)
  case 1 then show ?case by simp
next
  case (2 x) show ?case by (simp add: np_diff_def)
next
  case (3 x y zs)
  then show ?case by (simp add: np_diff_Cons2)
qed

lemma length_np_arange: "length (np_arange a b) = nat (b - a)"
  by (simp add: np_arange_def)

lemma nth_np_arange: "a + int i < b \<Longrightarrow> np_arange a b ! i = a + int i"
  by (simp add: np_arange_def)

lemma np_clip_bounds: "0 \<le> np_clip v 0 1 \<and> np_clip v 0 1 \<le> 1"
  by (simp add: np_clip_def)

lemma round_half_even_cases: "round_half_even x = \<lfloor>x\<rfloor> \<or> round_half_even x = \<lfloor>x\<rfloor> + 1"
  by (simp add: round_half_even_def Let_def)

lemma round_half_even_of_int: "round_half_even (of_int k) = k"
  by (simp add: round_half_even_def)

lemma round_half_even_lower:
  assumes "of_int a \<le> x" shows "a \<le> round_half_even x"
proof -
  have "a \<le> \<lfloor>x\<rfloor>" using assms by (simp add: le_floor_iff)
  with round_half_even_cases [of x] show ?thesis by linarith
qed

lemma round_half_even_upper:
  assumes "x \<le> of_int b" shows "round_half_even x \<le> b"
proof (cases "x = of_int \<lfloor>x\<rfloor>")
  case True
  then have "round_half_even x = \<lfloor>x\<rfloor>" by (metis round_half_even_of_int)
  moreover have "\<lfloor>x\<rfloor> \<le> b" using assms by (simp add: floor_le_iff)
  ultimately show ?thesis by simp
next
  case False
  moreover have "of_int \<lfloor>x\<rfloor> \<le> x" by (rule of_int_floor_le)
  ultimately have "of_int \<lfloor>x\<rfloor> < x" by linarith
  with assms have "\<lfloor>x\<rfloor> < b" by linarith
  with round_half_even_cases [of x] show ?thesis by linarith
qed

subsection \<open>The standard normal distribution function and its density\<close>

lemma abs_cdf_series_term:
  "\<bar>cdf_series_coeff k * y ^ k\<bar> = (\<bar>y\<bar> / 2) ^ k / fact k / (2 * of_nat k + 1)"
proof -
  have "\<bar>(- 1 / 2 :: real) ^ k\<bar> = (1 / 2) ^ k"
    by (simp add: power_abs)
  moreover have "\<bar>2 * real k + 1\<bar> = 2 * real k + 1"
    by simp
  ultimately have "\<bar>cdf_series_coeff k\<bar> = (1 / 2) ^ k / (fact k * (2 * of_nat k + 1))"
    unfolding cdf_series_coeff_def abs_divide abs_mult by simp
  then have "\<bar>cdf_series_coeff k * y ^ k\<bar>
      = (1 / 2) ^ k / (fact k * (2 * of_nat k + 1)) * \<bar>y\<bar> ^ k"
    by (simp only: abs_mult power_abs)
  also have "\<dots> = ((1 / 2) ^ k * \<bar>y\<bar> ^ k) / fact k / (2 * of_nat k + 1)"
    by (simp only: times_divide_eq_left divide_divide_eq_left)
  also have "(1 / 2) ^ k * \<bar>y\<bar> ^ k = (\<bar>y\<bar> / 2) ^ k"
    by (simp only: power_mult_distrib [symmetric]) simp
  finally show ?thesis .
qed

lemma norm_exp_term: "norm ((y / 2) ^ k /\<^sub>R fact k) = (\<bar>y\<bar> / 2) ^ k / fact k"
proof -
  have "norm ((y / 2) ^ k /\<^sub>R fact k) = \<bar>inverse (fact k)\<bar> * \<bar>(y / 2) ^ k\<bar>"
    by (simp only: real_norm_def real_scaleR_def abs_mult)
  also have "\<bar>inverse (fact k :: real)\<bar> = inverse (fact k)"
    by simp
  also have "\<bar>(y / 2) ^ k\<bar> = (\<bar>y\<bar> / 2) ^ k"
    by (simp add: power_abs)
  finally show ?thesis
    by (simp only: divide_inverse mult.commute)
qed

lemma cdf_series_summable: "summable (\<lambda>k. cdf_series_coeff k * y ^ k)"
proof (rule summable_comparison_test')
  show "summable (\<lambda>k. norm ((y / 2) ^ k /\<^sub>R fact k))"
    by (rule summable_norm_exp)
next
  fix k :: nat
  have "0 \<le> (\<bar>y\<bar> / 2) ^ k / fact k" by simp
  then have "(\<bar>y\<bar> / 2) ^ k / fact k / (2 * of_nat k + 1) \<le> (\<bar>y\<bar> / 2) ^ k / fact k"
    by (simp add: pos_divide_le_eq mult_le_cancel_left1 del: zero_le_divide_iff)
  then show "norm (cdf_series_coeff k * y ^ k) \<le> norm ((y / 2) ^ k /\<^sub>R fact k)"
    unfolding norm_exp_term unfolding real_norm_def abs_cdf_series_term .
qed


lemma cdf_series_deriv:
  "((\<lambda>y. \<Sum>k. cdf_series_coeff k * y ^ k) has_field_derivative
      (\<Sum>k. diffs cdf_series_coeff k * y ^ k)) (at y)"
  by (rule termdiffs_strong_converges_everywhere) (rule cdf_series_summable)

lemma cdf_series_term_exp:
  "cdf_series_coeff k * y ^ k + 2 * (of_nat k * cdf_series_coeff k * y ^ k)
     = (- y / 2) ^ k /\<^sub>R fact k"
proof -
  have nz: "2 * real k + 1 \<noteq> 0"
    using of_nat_0_le_iff [of k, where 'a = real] by linarith
  have "cdf_series_coeff k * y ^ k + 2 * (of_nat k * cdf_series_coeff k * y ^ k)
          = ((2 * of_nat k + 1) * cdf_series_coeff k) * y ^ k"
    by (simp add: algebra_simps)
  also have "(2 * of_nat k + 1) * cdf_series_coeff k = (- 1 / 2) ^ k / fact k"
  proof -
    have "(2 * of_nat k + 1) * cdf_series_coeff k
            = ((- 1 / 2) ^ k * (2 * of_nat k + 1)) / (fact k * (2 * of_nat k + 1))"
      unfolding cdf_series_coeff_def by (simp only: times_divide_eq_right mult.commute)
    also have "\<dots> = (- 1 / 2) ^ k / fact k"
      using nz by (rule nonzero_mult_divide_mult_cancel_right)
    finally show ?thesis .
  qed
  also have "(- 1 / 2) ^ k / fact k * y ^ k = inverse (fact k) * ((- 1 / 2) ^ k * y ^ k)"
    by (simp only: divide_inverse mult_ac)
  also have "(- 1 / 2) ^ k * y ^ k = (- y / 2) ^ k"
    by (simp only: power_mult_distrib [symmetric]) simp
  finally show ?thesis
    by (simp only: real_scaleR_def)
qed

lemma cdf_series_ode:
  "(\<Sum>k. cdf_series_coeff k * y ^ k) + 2 * y * (\<Sum>k. diffs cdf_series_coeff k * y ^ k)
     = exp (- y / 2)"
proof -
  let ?a = cdf_series_coeff
  have s0: "(\<lambda>k. ?a k * y ^ k) sums (\<Sum>k. ?a k * y ^ k)"
    by (rule summable_sums) (rule cdf_series_summable)
  have "summable (\<lambda>k. diffs ?a k * y ^ k)"
    by (rule termdiff_converges_all) (rule cdf_series_summable)
  then have "(\<lambda>k. diffs ?a k * y ^ k) sums (\<Sum>k. diffs ?a k * y ^ k)"
    by (rule summable_sums)
  then have "(\<lambda>k. y * (diffs ?a k * y ^ k)) sums (y * (\<Sum>k. diffs ?a k * y ^ k))"
    by (rule sums_mult)
  moreover have "y * (diffs ?a k * y ^ k) = of_nat (Suc k) * ?a (Suc k) * y ^ Suc k" for k
    by (simp add: diffs_def)
  ultimately have "(\<lambda>k. of_nat (Suc k) * ?a (Suc k) * y ^ Suc k)
      sums (y * (\<Sum>k. diffs ?a k * y ^ k))"
    by (simp only:)
  then have "(\<lambda>k. of_nat k * ?a k * y ^ k) sums (y * (\<Sum>k. diffs ?a k * y ^ k))"
    using sums_Suc_iff [of "\<lambda>k. of_nat k * ?a k * y ^ k" "y * (\<Sum>k. diffs ?a k * y ^ k)"]
    by simp
  then have "(\<lambda>k. 2 * (of_nat k * ?a k * y ^ k)) sums (2 * (y * (\<Sum>k. diffs ?a k * y ^ k)))"
    by (rule sums_mult)
  with s0 have "(\<lambda>k. ?a k * y ^ k + 2 * (of_nat k * ?a k * y ^ k))
      sums ((\<Sum>k. ?a k * y ^ k) + 2 * (y * (\<Sum>k. diffs ?a k * y ^ k)))"
    by (rule sums_add)
  then have "(\<lambda>k. (- y / 2) ^ k /\<^sub>R fact k)
      sums ((\<Sum>k. ?a k * y ^ k) + 2 * (y * (\<Sum>k. diffs ?a k * y ^ k)))"
    by (simp only: cdf_series_term_exp)
  moreover have "(\<lambda>k. (- y / 2) ^ k /\<^sub>R fact k) sums exp (- y / 2)"
    by (rule exp_converges)
  ultimately have "(\<Sum>k. ?a k * y ^ k) + 2 * (y * (\<Sum>k. diffs ?a k * y ^ k)) = exp (- y / 2)"
    by (rule sums_unique2)
  then show ?thesis
    by (simp only: mult.assoc)
qed

lemma norm_cdf_deriv: "(norm_cdf has_field_derivative norm_pdf x) (at x)"
proof -
  let ?H = "\<lambda>y. \<Sum>k. cdf_series_coeff k * y ^ k"
  let ?H' = "\<lambda>y. \<Sum>k. diffs cdf_series_coeff k * y ^ k"
  have d1: "((\<lambda>x. x * x) has_field_derivative 1 * x + 1 * x) (at x)"
    by (rule DERIV_mult [OF DERIV_ident DERIV_ident])
  have d2: "((\<lambda>x. ?H (x * x)) has_field_derivative ?H' (x * x) * (1 * x + 1 * x)) (at x)"
    by (rule DERIV_chain2 [OF cdf_series_deriv d1])
  have d3: "((\<lambda>x. x * ?H (x * x)) has_field_derivative
              1 * ?H (x * x) + ?H' (x * x) * (1 * x + 1 * x) * x) (at x)"
    by (rule DERIV_mult [OF DERIV_ident d2])
  have d4: "((\<lambda>x. x * ?H (x * x) / sqrt (2 * pi)) has_field_derivative
              (1 * ?H (x * x) + ?H' (x * x) * (1 * x + 1 * x) * x) / sqrt (2 * pi)) (at x)"
    by (rule DERIV_cdivide [OF d3])
  have d5: "((\<lambda>x. 1 / 2 + x * ?H (x * x) / sqrt (2 * pi)) has_field_derivative
              0 + (1 * ?H (x * x) + ?H' (x * x) * (1 * x + 1 * x) * x) / sqrt (2 * pi)) (at x)"
    by (rule DERIV_add [OF DERIV_const d4])
  have "1 * ?H (x * x) + ?H' (x * x) * (1 * x + 1 * x) * x
          = ?H (x * x) + 2 * (x * x) * ?H' (x * x)"
    by (simp only: mult_1 mult_2 [symmetric] mult_ac)
  also have "\<dots> = exp (- (x * x) / 2)"
    by (rule cdf_series_ode)
  finally have e: "0 + (1 * ?H (x * x) + ?H' (x * x) * (1 * x + 1 * x) * x) / sqrt (2 * pi)
                   = norm_pdf x"
    by (simp only: norm_pdf_def add_0)
  show ?thesis
    using d5 unfolding e norm_cdf_def [abs_def] .
qed

lemma norm_cdf_0: "norm_cdf 0 = 1 / 2"
  by (simp add: norm_cdf_def)


lemma sqrt_two_pi_bounds: "2 \<le> sqrt (2 * pi) \<and> sqrt (2 * pi) < 3"
proof
  have "(2 :: real)\<^sup>2 \<le> 2 * pi"
    using pi_ge_two by (simp add: power2_eq_square)
  then show "2 \<le> sqrt (2 * pi)"
    by (rule real_le_rsqrt)
next
  have "2 * pi < 3\<^sup>2"
    using pi_less_4 by (simp add: power2_eq_square)
  then show "sqrt (2 * pi) < 3"
    by (rule real_less_lsqrt [rotated]) simp
qed

lemma norm_pdf_pos: "0 < norm_pdf x"
  using sqrt_two_pi_bounds by (simp add: norm_pdf_def)

lemma norm_pdf_upper: "norm_pdf x \<le> 1 / 2"
proof -
  have "exp (- (x * x) / 2) \<le> 1"
    by simp
  then have "norm_pdf x \<le> 1 / sqrt (2 * pi)"
    unfolding norm_pdf_def using sqrt_two_pi_bounds by (simp add: divide_right_mono)
  also have "\<dots> \<le> 1 / 2"
    using sqrt_two_pi_bounds by (intro divide_left_mono) simp_all
  finally show ?thesis .
qed

lemma norm_pdf_lower: "0 \<le> c \<Longrightarrow> c \<le> exp (- (x * x) / 2) \<Longrightarrow> c / 3 \<le> norm_pdf x"
proof -
  assume c: "0 \<le> c" "c \<le> exp (- (x * x) / 2)"
  have "c / 3 \<le> c / sqrt (2 * pi)"
    using sqrt_two_pi_bounds c by (intro divide_left_mono) simp_all
  also have "\<dots> \<le> norm_pdf x"
    unfolding norm_pdf_def using sqrt_two_pi_bounds c by (simp add: divide_right_mono)
  finally show ?thesis .
qed

lemma norm_cdf_increment:
  assumes "a < b"
  shows "0 < norm_cdf b - norm_cdf a \<and> norm_cdf b - norm_cdf a \<le> (b - a) * (1 / 2)"
proof -
  obtain z where z: "norm_cdf b - norm_cdf a = (b - a) * norm_pdf z"
    using MVT2 [OF assms, of norm_cdf norm_pdf] norm_cdf_deriv by blast
  have "0 < (b - a) * norm_pdf z"
    using assms norm_pdf_pos by simp
  moreover have "(b - a) * norm_pdf z \<le> (b - a) * (1 / 2)"
    using assms norm_pdf_upper by (intro mult_left_mono) simp_all
  ultimately show ?thesis
    unfolding z by simp
qed

lemma norm_pdf_half: "7 / 24 \<le> norm_pdf (1 / 2)" "7 / 24 \<le> norm_pdf (- 1 / 2)"
proof -
  have "1 + (- 1 / 8) \<le> exp (- 1 / 8 :: real)"
    by (rule exp_ge_add_one_self)
  then have e: "(7 / 8 :: real) \<le> exp (- 1 / 8)" by simp
  show "7 / 24 \<le> norm_pdf (1 / 2)"
    using norm_pdf_lower [of "7 / 8" "1 / 2"] e by simp
  show "7 / 24 \<le> norm_pdf (- 1 / 2)"
    using norm_pdf_lower [of "7 / 8" "- 1 / 2"] e by simp
qed

lemma norm_pdf_three_halves: "49 / 768 \<le> norm_pdf (3 / 2)"
proof -
  have "1 + (- 9 / 16) \<le> exp (- 9 / 16 :: real)"
    by (rule exp_ge_add_one_self)
  then have "(7 / 16 :: real) \<le> exp (- 9 / 16)" by simp
  then have "(7 / 16 :: real) * (7 / 16) \<le> exp (- 9 / 16) * exp (- 9 / 16)"
    by (intro mult_mono) simp_all
  also have "exp (- 9 / 16 :: real) * exp (- 9 / 16) = exp (- 9 / 8)"
    by (simp add: exp_add [symmetric])
  finally have "(49 / 256 :: real) \<le> exp (- 9 / 8)" by simp
  then show ?thesis
    using norm_pdf_lower [of "49 / 256" "3 / 2"] by simp
qed

lemma norm_cdf_values:
  "1 / 4 \<le> norm_cdf (- 1 / 2)" "1 / 2 \<le> norm_cdf (1 / 2)" "norm_cdf (3 / 2) \<le> 5 / 4"
  using norm_cdf_increment [of "- 1 / 2" 0] norm_cdf_increment [of 0 "1 / 2"]
    norm_cdf_increment [of 0 "3 / 2"]
  by (simp_all add: norm_cdf_0)

subsection \<open>The general branch and the degenerate branch\<close>

lemma approximation_general:
  assumes "sigma \<noteq> 0"
  shows "compute_pmf_approximation cdf pdf mean sigma skewness n =
    \<lparr>start = max 0 \<lfloor>mean - 8 * sigma\<rfloor>,
     probabilities = np_diff (map (\<lambda>k. np_clip (G cdf pdf skewness ((of_int k + 0.5 - mean) / sigma)) 0 1)
        (np_arange (max 0 \<lfloor>mean - 8 * sigma\<rfloor> - 1) (min n (round_half_even (mean + 8 * sigma)) + 1)))\<rparr>"
  using assms by (simp add: compute_pmf_approximation_def Let_def comp_def)

text \<open>
  Claim C3. For \<open>sigma \<noteq> 0\<close> (in particular \<open>sigma > 0\<close>) and every mean, skewness
  and \<open>n\<close>, \<open>compute_pmf_approximation\<close> starts at the lower bound
  \<open>max 0 \<lfloor>mean - 8 * sigma\<rfloor>\<close>, ends at the upper bound
  \<open>min n (round (mean + 8 * sigma))\<close>, and for every integer \<open>k\<close> between the two
  bounds the probability at index \<open>k - start\<close> is the difference of the values of
  the corrected distribution function \<open>cdf x + skewness * (1 - x\<^sup>2) * pdf x / 6\<close>,
  each clipped into \<open>[0, 1]\<close>, at \<open>x = (k + 0.5 - mean) / sigma\<close> and at
  \<open>x' = (k - 1 + 0.5 - mean) / sigma\<close>. The statement holds for every \<open>cdf\<close> and
  \<open>pdf\<close>, so for the standard normal functions.
\<close>

theorem compute_pmf_approximation_entries:
  assumes "sigma \<noteq> 0"
  shows "let lower = max 0 \<lfloor>mean - 8 * sigma\<rfloor>;
             upper = min n (round_half_even (mean + 8 * sigma));
             r = compute_pmf_approximation cdf pdf mean sigma skewness n;
             x = (of_int k + 0.5 - mean) / sigma;
             x' = (of_int (k - 1) + 0.5 - mean) / sigma
         in start r = lower
          \<and> length (probabilities r) = nat (upper - lower + 1)
          \<and> (lower \<le> k \<and> k \<le> upper \<longrightarrow>
                probabilities r ! nat (k - start r) =
                  min (max (cdf x + skewness * (1 - x * x) * pdf x / 6) 0) 1
                  - min (max (cdf x' + skewness * (1 - x' * x') * pdf x' / 6) 0) 1)"
proof -
  define lower where "lower = max 0 \<lfloor>mean - 8 * sigma\<rfloor>"
  define upper where "upper = min n (round_half_even (mean + 8 * sigma))"
  define cg where "cg = (\<lambda>k::int. np_clip (G cdf pdf skewness ((of_int k + 0.5 - mean) / sigma)) 0 1)"
  define r where "r = compute_pmf_approximation cdf pdf mean sigma skewness n"
  have r: "r = \<lparr>start = lower, probabilities = np_diff (map cg (np_arange (lower - 1) (upper + 1)))\<rparr>"
    unfolding r_def lower_def upper_def cg_def using assms by (rule approximation_general)
  have len: "length (probabilities r) = nat (upper - lower + 1)"
    by (simp add: r length_np_diff length_np_arange)
  have entry: "probabilities r ! nat (k - start r) = cg k - cg (k - 1)"
    if "lower \<le> k" "k \<le> upper"
  proof -
    define i where "i = nat (k - lower)"
    have i: "int i = k - lower" using that by (simp add: i_def)
    have "Suc i < length (map cg (np_arange (lower - 1) (upper + 1)))"
      using that i by (simp add: length_np_arange)
    then have "np_diff (map cg (np_arange (lower - 1) (upper + 1))) ! i
                 = map cg (np_arange (lower - 1) (upper + 1)) ! Suc i
                   - map cg (np_arange (lower - 1) (upper + 1)) ! i"
      by (rule nth_np_diff)
    also have "map cg (np_arange (lower - 1) (upper + 1)) ! Suc i = cg k"
      using that i by (simp add: length_np_arange nth_np_arange)
    also have "map cg (np_arange (lower - 1) (upper + 1)) ! i = cg (k - 1)"
      using that i by (simp add: length_np_arange nth_np_arange)
    finally show ?thesis by (simp add: r i_def)
  qed
  have cg: "cg j = min (max (cdf ((of_int j + 0.5 - mean) / sigma)
                  + skewness * (1 - (of_int j + 0.5 - mean) / sigma * ((of_int j + 0.5 - mean) / sigma))
                    * pdf ((of_int j + 0.5 - mean) / sigma) / 6) 0) 1" for j
    unfolding cg_def G_def np_clip_def ..
  show ?thesis
    unfolding Let_def lower_def [symmetric] upper_def [symmetric] r_def [symmetric]
    using len entry unfolding cg by (simp add: r)
qed

theorem compute_pmf_approximation_entries_witness:
  "(1 / 8 :: real) \<noteq> 0
   \<and> max 0 \<lfloor>1 - 8 * (1 / 8 :: real)\<rfloor> = 0
   \<and> min 2 (round_half_even (1 + 8 * (1 / 8))) = 2
   \<and> start (compute_pmf_approximation norm_cdf norm_pdf 1 (1 / 8) 3 2) = 0
   \<and> length (probabilities (compute_pmf_approximation norm_cdf norm_pdf 1 (1 / 8) 3 2)) = 3
   \<and> probabilities (compute_pmf_approximation norm_cdf norm_pdf 1 (1 / 8) 3 2) ! 1
       = min (max (norm_cdf 4 + 3 * (1 - 4 * 4) * norm_pdf 4 / 6) 0) 1
         - min (max (norm_cdf (- 4) + 3 * (1 - (- 4) * (- 4)) * norm_pdf (- 4) / 6) 0) 1"
proof -
  have s: "(1 / 8 :: real) \<noteq> 0" by simp
  have l: "max 0 \<lfloor>1 - 8 * (1 / 8 :: real)\<rfloor> = 0" by simp
  have u: "min 2 (round_half_even (1 + 8 * (1 / 8))) = 2"
    by (simp add: round_half_even_def)
  show ?thesis
    using compute_pmf_approximation_entries [OF s, of 1 2 norm_cdf norm_pdf 3 1]
    unfolding Let_def l u
    by (elim conjE) (simp add: l u)
qed

text \<open>
  Claim C4. If \<open>sigma = 0\<close>, \<open>compute_pmf_approximation\<close> returns the point mass
  \<open>PMF(round(mean), [1])\<close> whatever the mean, the skewness, \<open>n\<close> and the functions
  \<open>cdf\<close> and \<open>pdf\<close> are: the correction formula, with its division by \<open>sigma\<close>, has
  no part in the result. In particular the call with mean 3, sigma 0, skewness 0
  and \<open>n = 10\<close> returns \<open>PMF(3, [1])\<close>.
\<close>

theorem compute_pmf_approximation_sigma_zero:
  "compute_pmf_approximation cdf pdf mean 0 skewness n
     = \<lparr>start = round_half_even mean, probabilities = [1]\<rparr>
   \<and> compute_pmf_approximation cdf pdf 3 0 0 10 = \<lparr>start = 3, probabilities = [1]\<rparr>"
  by (simp add: compute_pmf_approximation_def round_half_even_def)

section \<open>Properties of the moments\<close>

lemma elem_le_sum_list_nonneg:
  fixes xs :: "real list"
  shows "x \<in> set xs \<Longrightarrow> \<forall>v\<in>set xs. 0 \<le> v \<Longrightarrow> x \<le> sum_list xs"
proof (induction xs)
  case Nil
  then show ?case by simp
next
  case (Cons y ys)
  have "0 \<le> sum_list ys"
    using Cons.prems(2) by (intro sum_list_nonneg) simp
  moreover have "0 \<le> y"
    using Cons.prems(2) by simp
  ultimately show ?case
    using Cons by auto
qed

lemma variance_pos:
  assumes "\<forall>p\<in>set ps. 0 \<le> p \<and> p \<le> (1::real)" "\<exists>p\<in>set ps. 0 < p \<and> p < 1"
  shows "0 < sum_list (map (\<lambda>p. p * (1 - p)) ps)"
proof -
  obtain q where q: "q \<in> set ps" "0 < q" "q < 1" using assms(2) by blast
  have nn: "\<forall>v\<in>set (map (\<lambda>p. p * (1 - p)) ps). 0 \<le> v"
    using assms(1) by auto
  have "q * (1 - q) \<in> set (map (\<lambda>p. p * (1 - p)) ps)"
    using q(1) by auto
  then have "q * (1 - q) \<le> sum_list (map (\<lambda>p. p * (1 - p)) ps)"
    using nn by (rule elem_le_sum_list_nonneg)
  moreover have "0 < q * (1 - q)" using q by simp
  ultimately show ?thesis by linarith
qed

lemma moments_of_variance:
  "compute_exp_std_skewness ps =
     (sum_list ps,
      np_sqrt (sum_list (map (\<lambda>p. p * (1 - p)) ps)),
      np_true_divide (sum_list (map (\<lambda>p. p * (1 - p) * (1 - 2 * p)) ps))
        (np_cube (np_sqrt (sum_list (map (\<lambda>p. p * (1 - p)) ps)))))"
  by (simp add: compute_exp_std_skewness_def Let_def)

text \<open>
  Claim C5. For every sequence of probabilities in \<open>[0, 1]\<close> with at least one
  strictly between 0 and 1, \<open>compute_exp_std_skewness\<close> returns the three finite
  values \<open>mean = \<Sum>p\<close>, \<open>std = sqrt (\<Sum>p * (1 - p))\<close> and
  \<open>skewness = (\<Sum>p * (1 - p) * (1 - 2 * p)) / std ^ 3\<close>; on \<open>[0.5, 0.5]\<close> these are
  1, \<open>sqrt 0.5\<close> and 0.
\<close>

theorem compute_exp_std_skewness_moments:
  assumes "\<forall>p\<in>set ps. 0 \<le> p \<and> p \<le> 1" and "\<exists>p\<in>set ps. 0 < p \<and> p < 1"
  shows "compute_exp_std_skewness ps =
           (sum_list ps,
            Finite (sqrt (sum_list (map (\<lambda>p. p * (1 - p)) ps))),
            Finite (sum_list (map (\<lambda>p. p * (1 - p) * (1 - 2 * p)) ps)
                    / sqrt (sum_list (map (\<lambda>p. p * (1 - p)) ps)) ^ 3))
         \<and> compute_exp_std_skewness [1 / 2, 1 / 2] = (1, Finite (sqrt (1 / 2)), Finite 0)"
proof -
  have v: "0 < sum_list (map (\<lambda>p. p * (1 - p)) ps)"
    using assms by (rule variance_pos)
  then have "sqrt (sum_list (map (\<lambda>p. p * (1 - p)) ps)) ^ 3 \<noteq> 0"
    by simp
  with v have "compute_exp_std_skewness ps =
           (sum_list ps,
            Finite (sqrt (sum_list (map (\<lambda>p. p * (1 - p)) ps))),
            Finite (sum_list (map (\<lambda>p. p * (1 - p) * (1 - 2 * p)) ps)
                    / sqrt (sum_list (map (\<lambda>p. p * (1 - p)) ps)) ^ 3))"
    unfolding moments_of_variance np_sqrt_def by simp
  moreover have "compute_exp_std_skewness [1 / 2, 1 / 2] = (1, Finite (sqrt (1 / 2)), Finite 0)"
    by (simp add: compute_exp_std_skewness_def np_sqrt_def)
  ultimately show ?thesis ..
qed

theorem compute_exp_std_skewness_moments_witness:
  "compute_exp_std_skewness [1 / 4, 1 / 2]
     = (3 / 4, Finite (sqrt (7 / 16)), Finite ((3 / 32) / sqrt (7 / 16) ^ 3))"
proof -
  have a: "\<forall>p\<in>set [1 / 4, 1 / 2 :: real]. 0 \<le> p \<and> p \<le> 1" by simp
  have b: "\<exists>p\<in>set [1 / 4, 1 / 2 :: real]. 0 < p \<and> p < 1" by simp
  show ?thesis
    using compute_exp_std_skewness_moments [OF a b] by simp
qed

lemma variance_zero_terms:
  assumes "\<forall>p\<in>set ps. 0 \<le> p \<and> p \<le> (1::real)"
    and "sum_list (map (\<lambda>p. p * (1 - p)) ps) = 0"
  shows "\<forall>p\<in>set ps. p * (1 - p) = 0"
proof -
  have "(sum_list (map (\<lambda>p. p * (1 - p)) ps) = 0)
          = (\<forall>v\<in>set (map (\<lambda>p. p * (1 - p)) ps). v = 0)"
    by (rule sum_list_nonneg_eq_0_iff) (use assms(1) in auto)
  with assms(2) have "\<forall>v\<in>set (map (\<lambda>p. p * (1 - p)) ps). v = 0"
    by blast
  then show ?thesis
    by (simp del: mult_eq_0_iff)
qed

lemma third_moment_zero:
  assumes "\<forall>p\<in>set ps. p * (1 - p) = (0::real)"
  shows "sum_list (map (\<lambda>p. p * (1 - p) * (1 - 2 * p)) ps) = 0"
  using assms by (induction ps) simp_all

text \<open>
  Claim C6. For every sequence whose variance \<open>\<Sum>p * (1 - p)\<close> is 0,
  \<open>compute_exp_std_skewness\<close> divides by \<open>std ^ 3 = 0\<close> without a guard and
  returns, rather than raising: the mean, \<open>std = 0\<close> and a skewness that is not a
  finite number. When the probabilities lie in \<open>[0, 1]\<close> (all of them 0 or 1, or
  none at all) the division is \<open>0 / 0\<close> and the skewness is \<open>nan\<close>; so it is for the
  empty sequence.
\<close>

theorem compute_exp_std_skewness_zero_variance:
  assumes "sum_list (map (\<lambda>p. p * (1 - p)) ps) = 0"
  shows "fst (compute_exp_std_skewness ps) = sum_list ps
       \<and> fst (snd (compute_exp_std_skewness ps)) = Finite 0
       \<and> snd (snd (compute_exp_std_skewness ps)) \<in> {NaN, PosInf, NegInf}
       \<and> ((\<forall>p\<in>set ps. 0 \<le> p \<and> p \<le> 1) \<longrightarrow> snd (snd (compute_exp_std_skewness ps)) = NaN)
       \<and> compute_exp_std_skewness [] = (0, Finite 0, NaN)"
proof -
  have "(\<forall>p\<in>set ps. 0 \<le> p \<and> p \<le> 1) \<longrightarrow> sum_list (map (\<lambda>p. p * (1 - p) * (1 - 2 * p)) ps) = 0"
    using assms by (auto dest!: variance_zero_terms intro: third_moment_zero)
  then show ?thesis
    unfolding moments_of_variance assms by (simp add: np_sqrt_def)
qed

theorem compute_exp_std_skewness_zero_variance_witness:
  "sum_list (map (\<lambda>p. p * (1 - p)) [0, 1, 1 :: real]) = 0
   \<and> compute_exp_std_skewness [0, 1, 1] = (2, Finite 0, NaN)"
proof -
  have a: "sum_list (map (\<lambda>p. p * (1 - p)) [0, 1, 1 :: real]) = 0" by simp
  have b: "\<forall>p\<in>set [0, 1, 1 :: real]. 0 \<le> p \<and> p \<le> 1" by simp
  have "compute_exp_std_skewness [0, 1, 1] = (2, Finite 0, NaN)"
    using compute_exp_std_skewness_zero_variance [OF a] b by (simp add: prod_eq_iff)
  with a show ?thesis ..
qed

section \<open>Inputs outside the contract\<close>

subsection \<open>An evaluation with the normal distribution\<close>

text \<open>
  With mean 0, sigma 1 and \<open>n = 1\<close> the three arguments of \<open>G\<close> are \<open>-0.5\<close>, \<open>0.5\<close>
  and \<open>1.5\<close>. At skewness 100 the correction term lifts \<open>G\<close> above 1 at the first
  two and pushes it below 0 at the third.
\<close>

lemma np_arange_m1_2: "np_arange (- 1) 2 = [- 1, 0, 1]"
  by (simp add: np_arange_def upto.simps)

lemma G_extreme_skew:
  "1 \<le> G norm_cdf norm_pdf 100 (- 1 / 2)"
  "1 \<le> G norm_cdf norm_pdf 100 (1 / 2)"
  "G norm_cdf norm_pdf 100 (3 / 2) \<le> 0"
  using norm_cdf_values norm_pdf_half norm_pdf_three_halves
  by (simp_all add: G_def)

lemma approximation_extreme_skew:
  "compute_pmf_approximation norm_cdf norm_pdf 0 1 100 1 = \<lparr>start = 0, probabilities = [0, - 1]\<rparr>"
proof -
  have s: "(1::real) \<noteq> 0" by simp
  have l: "max 0 \<lfloor>0 - 8 * (1::real)\<rfloor> = 0" by simp
  have u: "min 1 (round_half_even (0 + 8 * 1)) = 1"
    by (simp add: round_half_even_def)
  have a: "(of_int (- 1) + 0.5 - 0) / 1 = (- 1 / 2 :: real)" by simp
  have b: "(of_int 0 + 0.5 - 0) / 1 = (1 / 2 :: real)" by simp
  have c: "(of_int 1 + 0.5 - 0) / 1 = (3 / 2 :: real)" by simp
  have ca: "np_clip (G norm_cdf norm_pdf 100 (- 1 / 2)) 0 1 = 1"
    using G_extreme_skew(1) by (simp add: np_clip_def)
  have cb: "np_clip (G norm_cdf norm_pdf 100 (1 / 2)) 0 1 = 1"
    using G_extreme_skew(2) by (simp add: np_clip_def)
  have cc: "np_clip (G norm_cdf norm_pdf 100 (3 / 2)) 0 1 = 0"
    using G_extreme_skew(3) by (simp add: np_clip_def)
  have "np_diff (map (\<lambda>k. np_clip (G norm_cdf norm_pdf 100 ((of_int k + 0.5 - 0) / 1)) 0 1)
          (np_arange (0 - 1) (1 + 1))) = [0, - 1]"
    unfolding diff_0 one_add_one np_arange_m1_2 list.map a b c ca cb cc
    by (simp add: np_diff_def)
  then show ?thesis
    unfolding approximation_general [OF s] l u by simp
qed

subsection \<open>No validation of the arguments\<close>

lemma approximation_negative_n:
  assumes "n < 0" "sigma \<noteq> 0"
  shows "compute_pmf_approximation cdf pdf mean sigma skewness n
           = \<lparr>start = max 0 \<lfloor>mean - 8 * sigma\<rfloor>, probabilities = []\<rparr>"
proof -
  have "length (np_diff (map (\<lambda>k. np_clip (G cdf pdf skewness ((of_int k + 0.5 - mean) / sigma)) 0 1)
          (np_arange (max 0 \<lfloor>mean - 8 * sigma\<rfloor> - 1)
             (min n (round_half_even (mean + 8 * sigma)) + 1)))) = 0"
    using assms(1) by (simp add: length_np_diff length_np_arange)
  then show ?thesis
    unfolding approximation_general [OF assms(2)] by simp
qed

text \<open>
  Claim C7, as stated, fails: the functions have no check of the range. On the probability
  2, \<open>compute_pmf\<close> returns \<open>PMF(0, [-1, 2])\<close> and \<open>compute_exp_std_skewness\<close>
  returns \<open>(2, nan, nan)\<close>; on \<open>n = -1\<close> (mean 0, sigma 1, skewness 0),
  \<open>compute_pmf_approximation\<close> returns \<open>PMF(0, [])\<close>.
\<close>

theorem no_validation_counterexample:
  "compute_pmf [2] = \<lparr>start = 0, probabilities = [- 1, 2]\<rparr>
   \<and> compute_exp_std_skewness [2] = (2, NaN, NaN)
   \<and> compute_pmf_approximation norm_cdf norm_pdf 0 1 0 (- 1) = \<lparr>start = 0, probabilities = []\<rparr>"
proof -
  have "compute_pmf [2] = \<lparr>start = 0, probabilities = [- 1, 2]\<rparr>"
    by (simp add: compute_pmf_def next_poisson_bin_probs_def)
  moreover have "compute_exp_std_skewness [2] = (2, NaN, NaN)"
    by (simp add: compute_exp_std_skewness_def np_sqrt_def)
  moreover have "compute_pmf_approximation norm_cdf norm_pdf 0 1 0 (- 1)
                  = \<lparr>start = 0, probabilities = []\<rparr>"
    by (simp add: compute_pmf_approximation_def round_half_even_def np_arange_def np_diff_def)
  ultimately show ?thesis by blast
qed

text \<open>
  Claim C7, amended. The functions do not check the range of their arguments,
  and out-of-range arguments within the range of the machine numbers give a
  result, not a failure. For every sequence of \<open>n\<close> finite numbers, in \<open>[0, 1]\<close> or
  not, \<open>compute_pmf\<close> returns \<open>PMF(0, v)\<close> where \<open>v\<close> is the vector of \<open>n + 1\<close>
  entries that the recurrence of the specification yields, and
  \<open>compute_exp_std_skewness\<close> returns a triple whose first component is the sum
  and whose second is \<open>nan\<close> exactly when the variance sum is negative. For every
  negative \<open>n\<close> and \<open>sigma \<noteq> 0\<close> such that \<open>n\<close>, \<open>\<lfloor>mean - 8 * sigma\<rfloor>\<close> and
  \<open>round (mean + 8 * sigma)\<close> are 64-bit integers, \<open>compute_pmf_approximation\<close>
  returns the PMF with start \<open>max 0 \<lfloor>mean - 8 * sigma\<rfloor>\<close> and no probabilities.
  Nothing is said of arguments beyond that range, or of \<open>nan\<close> and infinite ones.
\<close>

theorem inputs_are_not_validated:
  "compute_pmf ps = \<lparr>start = 0, probabilities = spec_pmf_coefficients ps\<rparr>
   \<and> length (spec_pmf_coefficients ps) = length ps + 1
   \<and> fst (compute_exp_std_skewness ps) = sum_list ps
   \<and> (fst (snd (compute_exp_std_skewness ps)) = NaN
        \<longleftrightarrow> sum_list (map (\<lambda>p. p * (1 - p)) ps) < 0)
   \<and> (n < 0 \<and> sigma \<noteq> 0 \<and> int64_range n \<and> int64_range \<lfloor>mean - 8 * sigma\<rfloor>
        \<and> int64_range (round_half_even (mean + 8 * sigma)) \<longrightarrow>
        compute_pmf_approximation cdf pdf mean sigma skewness n
          = \<lparr>start = max 0 \<lfloor>mean - 8 * sigma\<rfloor>, probabilities = []\<rparr>)"
proof -
  have c: "pmf_loop [1] ps = spec_pmf_coefficients ps"
    by (simp add: spec_pmf_coefficients_def pmf_loop_is_foldl)
  have "compute_pmf ps = \<lparr>start = 0, probabilities = spec_pmf_coefficients ps\<rparr>"
    by (simp add: compute_pmf_def c)
  moreover have "length (spec_pmf_coefficients ps) = length ps + 1"
    using length_pmf_loop [of "[1]" ps] by (simp add: c)
  moreover have "fst (compute_exp_std_skewness ps) = sum_list ps"
    by (simp add: moments_of_variance)
  moreover have "fst (snd (compute_exp_std_skewness ps)) = NaN
        \<longleftrightarrow> sum_list (map (\<lambda>p. p * (1 - p)) ps) < 0"
    by (simp add: moments_of_variance np_sqrt_def)
  ultimately show ?thesis
    using approximation_negative_n by blast
qed

theorem inputs_are_not_validated_witness:
  "(- 1 :: int) < 0 \<and> (1 :: real) \<noteq> 0
   \<and> int64_range (- 1) \<and> int64_range \<lfloor>0 - 8 * (1 :: real)\<rfloor>
   \<and> int64_range (round_half_even (0 + 8 * 1))
   \<and> compute_pmf_approximation norm_cdf norm_pdf 0 1 0 (- 1) = \<lparr>start = 0, probabilities = []\<rparr>
   \<and> compute_pmf [2] = \<lparr>start = 0, probabilities = spec_pmf_coefficients [2]\<rparr>"
proof -
  have r: "int64_range (- 1)" "int64_range \<lfloor>0 - 8 * (1 :: real)\<rfloor>"
    "int64_range (round_half_even (0 + 8 * 1))"
    by (simp_all add: int64_range_def round_half_even_def)
  show ?thesis
    using inputs_are_not_validated [of "[2]" "- 1" 1 0 norm_cdf norm_pdf 0] r by simp
qed

subsection \<open>The support of the approximation\<close>

lemma approximation_length:
  assumes "sigma \<noteq> 0"
  shows "int (length (probabilities (compute_pmf_approximation cdf pdf mean sigma skewness n)))
           = max 0 (min n (round_half_even (mean + 8 * sigma)) - max 0 \<lfloor>mean - 8 * sigma\<rfloor> + 1)"
  unfolding approximation_general [OF assms]
  by (simp add: length_np_diff length_np_arange)

text \<open>
  Claim C9, as stated, fails: with mean 20, sigma 0 and \<open>n = 10\<close> the point mass is
  at 20, outside \<open>[0, 10]\<close>; the degenerate branch does not clamp.
\<close>

theorem support_outside_range_counterexample:
  "start (compute_pmf_approximation norm_cdf norm_pdf 20 0 0 10) = 20
   \<and> \<not> start (compute_pmf_approximation norm_cdf norm_pdf 20 0 0 10)
        + int (length (probabilities (compute_pmf_approximation norm_cdf norm_pdf 20 0 0 10))) - 1
       \<le> 10"
  by (simp add: compute_pmf_approximation_def round_half_even_def)

text \<open>
  Claim C9, amended. For \<open>sigma \<noteq> 0\<close> the start of the returned PMF is the lower
  bound \<open>max 0 \<lfloor>mean - 8 * sigma\<rfloor>\<close>, which is at least 0, and when the PMF has any
  probabilities its last value \<open>start + len - 1\<close> is at most \<open>n\<close>. When moreover
  the mean lies in \<open>[0, n]\<close> and \<open>sigma \<ge> 0\<close> (the sigma = 0 branch included),
  \<open>0 \<le> start\<close> and \<open>start + len - 1 \<le> n\<close>.
\<close>

theorem compute_pmf_approximation_support:
  "(sigma \<noteq> 0 \<longrightarrow>
      start (compute_pmf_approximation cdf pdf mean sigma skewness n) = max 0 \<lfloor>mean - 8 * sigma\<rfloor>
      \<and> 0 \<le> start (compute_pmf_approximation cdf pdf mean sigma skewness n)
      \<and> (probabilities (compute_pmf_approximation cdf pdf mean sigma skewness n) \<noteq> [] \<longrightarrow>
           start (compute_pmf_approximation cdf pdf mean sigma skewness n)
           + int (length (probabilities (compute_pmf_approximation cdf pdf mean sigma skewness n))) - 1
           \<le> n))
   \<and> (0 \<le> sigma \<and> 0 \<le> mean \<and> mean \<le> of_int n \<longrightarrow>
      0 \<le> start (compute_pmf_approximation cdf pdf mean sigma skewness n)
      \<and> start (compute_pmf_approximation cdf pdf mean sigma skewness n)
        + int (length (probabilities (compute_pmf_approximation cdf pdf mean sigma skewness n))) - 1
        \<le> n)"
proof (intro conjI impI)
  assume s: "sigma \<noteq> 0"
  show "start (compute_pmf_approximation cdf pdf mean sigma skewness n) = max 0 \<lfloor>mean - 8 * sigma\<rfloor>"
    unfolding approximation_general [OF s] by simp
  then show "0 \<le> start (compute_pmf_approximation cdf pdf mean sigma skewness n)"
    by simp
  assume "probabilities (compute_pmf_approximation cdf pdf mean sigma skewness n) \<noteq> []"
  then have "0 < int (length (probabilities (compute_pmf_approximation cdf pdf mean sigma skewness n)))"
    by simp
  then show "start (compute_pmf_approximation cdf pdf mean sigma skewness n)
           + int (length (probabilities (compute_pmf_approximation cdf pdf mean sigma skewness n))) - 1
           \<le> n"
    unfolding approximation_length [OF s]
    unfolding approximation_general [OF s] by simp
next
  assume h: "0 \<le> sigma \<and> 0 \<le> mean \<and> mean \<le> of_int n"
  then have n0: "0 \<le> n" by linarith
  show "0 \<le> start (compute_pmf_approximation cdf pdf mean sigma skewness n)"
  proof (cases "sigma = 0")
    case True
    have "of_int 0 \<le> mean" using h by simp
    then have "0 \<le> round_half_even mean" by (rule round_half_even_lower)
    then show ?thesis using True by (simp add: compute_pmf_approximation_def)
  next
    case False
    show ?thesis unfolding approximation_general [OF False] by simp
  qed
  show "start (compute_pmf_approximation cdf pdf mean sigma skewness n)
        + int (length (probabilities (compute_pmf_approximation cdf pdf mean sigma skewness n))) - 1
        \<le> n"
  proof (cases "sigma = 0")
    case True
    have "round_half_even mean \<le> n" using h by (intro round_half_even_upper) simp
    then show ?thesis using True by (simp add: compute_pmf_approximation_def)
  next
    case False
    have "mean - 8 * sigma \<le> of_int n" using h by linarith
    then have "\<lfloor>mean - 8 * sigma\<rfloor> \<le> n" by (simp add: floor_le_iff)
    then have "max 0 \<lfloor>mean - 8 * sigma\<rfloor> \<le> n" using n0 by simp
    then show ?thesis
      unfolding approximation_length [OF False]
      unfolding approximation_general [OF False] by (simp add: max_def min_def)
  qed
qed

theorem compute_pmf_approximation_support_witness:
  "(1 / 8 :: real) \<noteq> 0 \<and> (0 :: real) \<le> 1 / 8 \<and> (0 :: real) \<le> 1 \<and> (1 :: real) \<le> of_int 2
   \<and> probabilities (compute_pmf_approximation norm_cdf norm_pdf 1 (1 / 8) 0 2) \<noteq> []
   \<and> start (compute_pmf_approximation norm_cdf norm_pdf 1 (1 / 8) 0 2) = 0
   \<and> start (compute_pmf_approximation norm_cdf norm_pdf 1 (1 / 8) 0 2)
        + int (length (probabilities (compute_pmf_approximation norm_cdf norm_pdf 1 (1 / 8) 0 2))) - 1
        \<le> 2"
proof -
  have "int (length (probabilities (compute_pmf_approximation norm_cdf norm_pdf 1 (1 / 8) 0 2))) = 3"
    by (simp add: approximation_length round_half_even_def)
  then have "probabilities (compute_pmf_approximation norm_cdf norm_pdf 1 (1 / 8) 0 2) \<noteq> []"
    by auto
  then show ?thesis
    using compute_pmf_approximation_support [of "1 / 8" norm_cdf norm_pdf 1 0 2] by simp
qed

section \<open>The range of the probabilities\<close>

subsection \<open>Entries\<close>

lemma np_diff_map_arange_entries:
  assumes "q \<in> set (np_diff (map f (np_arange a b)))"
  shows "\<exists>k. q = f (k + 1) - f k"
proof -
  let ?xs = "map f (np_arange a b)"
  obtain i where i: "i < length (np_diff ?xs)" "np_diff ?xs ! i = q"
    using assms by (auto simp: in_set_conv_nth)
  then have s: "Suc i < length ?xs"
    by (simp add: length_np_diff)
  then have lt: "a + int (Suc i) < b" "a + int i < b"
    by (simp_all add: length_np_arange)
  have "np_arange a b ! Suc i = a + int (Suc i)"
    using lt(1) by (rule nth_np_arange)
  also have "a + int (Suc i) = a + int i + 1"
    by simp
  finally have hi: "?xs ! Suc i = f (a + int i + 1)"
    using s by simp
  have "np_arange a b ! i = a + int i"
    using lt(2) by (rule nth_np_arange)
  then have lo: "?xs ! i = f (a + int i)"
    using s by simp
  have "q = f (a + int i + 1) - f (a + int i)"
    using i(2) nth_np_diff [OF s] unfolding hi lo by simp
  then show ?thesis ..
qed

lemma next_poisson_bin_probs_nonneg:
  assumes "\<forall>c\<in>set cs. 0 \<le> c" "0 \<le> p" "p \<le> 1"
  shows "\<forall>c\<in>set (next_poisson_bin_probs cs p). 0 \<le> c"
proof
  fix c assume "c \<in> set (next_poisson_bin_probs cs p)"
  then have "c \<in> set (spec_trial_update cs p)"
    by (simp only: next_is_spec_trial_update)
  then obtain i where i: "i < length cs + 1"
    and c: "c = (if i < length cs then cs ! i * (1 - p) else 0)
              + (if 0 < i then cs ! (i - 1) * p else 0)"
    unfolding spec_trial_update_def by (auto simp del: upt_Suc)
  have nth: "0 \<le> cs ! j" if "j < length cs" for j
    using assms(1) that by simp
  have "0 \<le> (if i < length cs then cs ! i * (1 - p) else 0)"
    using nth [of i] assms(3) by simp
  moreover have "0 \<le> (if 0 < i then cs ! (i - 1) * p else 0)"
    using nth [of "i - 1"] i assms(2) by simp
  ultimately show "0 \<le> c"
    unfolding c by (rule add_nonneg_nonneg)
qed

lemma pmf_loop_nonneg:
  "\<forall>c\<in>set cs. 0 \<le> c \<Longrightarrow> \<forall>p\<in>set ps. 0 \<le> p \<and> p \<le> 1
     \<Longrightarrow> \<forall>c\<in>set (pmf_loop cs ps). 0 \<le> c"
proof (induction ps arbitrary: cs)
  case Nil
  then show ?case by simp
next
  case (Cons p ps)
  have p: "0 \<le> p" "p \<le> 1"
    using Cons.prems(2) by simp_all
  have rest: "\<forall>p\<in>set ps. 0 \<le> p \<and> p \<le> 1"
    using Cons.prems(2) by simp
  have "\<forall>c\<in>set (next_poisson_bin_probs cs p). 0 \<le> c"
    using Cons.prems(1) p by (rule next_poisson_bin_probs_nonneg)
  then have "\<forall>c\<in>set (pmf_loop (next_poisson_bin_probs cs p) ps). 0 \<le> c"
    using rest by (rule Cons.IH)
  then show ?case
    by (simp only: pmf_loop.simps)
qed

lemma compute_pmf_entries:
  assumes "\<forall>p\<in>set ps. 0 \<le> p \<and> p \<le> 1"
  shows "\<forall>q\<in>set (probabilities (compute_pmf ps)). 0 \<le> q \<and> q \<le> 1"
proof
  fix q assume q: "q \<in> set (probabilities (compute_pmf ps))"
  have nn: "\<forall>c\<in>set (pmf_loop [1] ps). 0 \<le> c"
    using assms by (intro pmf_loop_nonneg) simp_all
  have "q \<in> set (pmf_loop [1] ps)"
    using q by (simp add: compute_pmf_def)
  then have "0 \<le> q" "q \<le> sum_list (pmf_loop [1] ps)"
    using nn by (simp_all add: elem_le_sum_list_nonneg)
  then show "0 \<le> q \<and> q \<le> 1"
    by (simp add: sum_list_pmf_loop)
qed

lemma approximation_entries_abs:
  "\<forall>q\<in>set (probabilities (compute_pmf_approximation cdf pdf mean sigma skewness n)).
      - 1 \<le> q \<and> q \<le> 1"
proof (cases "sigma = 0")
  case True
  then show ?thesis by (simp add: compute_pmf_approximation_def)
next
  case False
  show ?thesis
  proof
    fix q
    assume "q \<in> set (probabilities (compute_pmf_approximation cdf pdf mean sigma skewness n))"
    then have "q \<in> set (np_diff (map
        (\<lambda>k. np_clip (G cdf pdf skewness ((of_int k + 0.5 - mean) / sigma)) 0 1)
        (np_arange (max 0 \<lfloor>mean - 8 * sigma\<rfloor> - 1)
           (min n (round_half_even (mean + 8 * sigma)) + 1))))"
      unfolding approximation_general [OF False] by simp
    then obtain k where
      "q = np_clip (G cdf pdf skewness ((of_int (k + 1) + 0.5 - mean) / sigma)) 0 1
           - np_clip (G cdf pdf skewness ((of_int k + 0.5 - mean) / sigma)) 0 1"
      by (blast dest: np_diff_map_arange_entries)
    then show "- 1 \<le> q \<and> q \<le> 1"
      using np_clip_bounds [of "G cdf pdf skewness ((of_int (k + 1) + 0.5 - mean) / sigma)"]
        np_clip_bounds [of "G cdf pdf skewness ((of_int k + 0.5 - mean) / sigma)"]
      by linarith
  qed
qed

subsection \<open>Total mass\<close>

lemma hd_last_np_arange:
  assumes "a < b"
  shows "np_arange a b \<noteq> []" "hd (np_arange a b) = a" "last (np_arange a b) = b - 1"
proof -
  have le: "a \<le> b - 1" using assms by simp
  show "np_arange a b \<noteq> []" using le by (simp add: np_arange_def)
  show "hd (np_arange a b) = a" using le by (simp add: np_arange_def upto_rec1)
  show "last (np_arange a b) = b - 1" using le by (simp add: np_arange_def upto_rec2)
qed

lemma sum_list_np_diff_map_arange:
  assumes "a < b"
  shows "sum_list (np_diff (map f (np_arange a b))) = f (b - 1) - f a"
proof -
  have "map f (np_arange a b) \<noteq> []"
    using hd_last_np_arange(1) [OF assms] by simp
  then have "sum_list (np_diff (map f (np_arange a b)))
               = last (map f (np_arange a b)) - hd (map f (np_arange a b))"
    by (rule sum_list_np_diff)
  also have "last (map f (np_arange a b)) = f (b - 1)"
    using hd_last_np_arange [OF assms] by (simp add: last_map)
  also have "hd (map f (np_arange a b)) = f a"
    using hd_last_np_arange [OF assms] by (simp add: hd_map)
  finally show ?thesis .
qed

lemma np_diff_map_arange_empty:
  assumes "b \<le> a"
  shows "np_diff (map f (np_arange a b)) = []"
  using assms by (simp add: np_arange_def np_diff_def)

text \<open>
  Claim C10, as stated, fails: the total is a difference of two values in
  \<open>[0, 1]\<close> and can be negative. With mean 0, sigma 1, skewness 100 and \<open>n = 1\<close> the
  probabilities sum to \<open>-1\<close>.
\<close>

theorem negative_total_mass_counterexample:
  "sum_list (probabilities (compute_pmf_approximation norm_cdf norm_pdf 0 1 100 1)) = - 1
   \<and> \<not> 0 \<le> sum_list (probabilities (compute_pmf_approximation norm_cdf norm_pdf 0 1 100 1))"
  by (simp add: approximation_extreme_skew)

text \<open>
  Claim C10, amended. For \<open>sigma \<noteq> 0\<close> and \<open>start - 1 \<le> end\<close> (so that \<open>G\<close> is
  evaluated at one point at least) the probabilities sum to the clipped value of
  \<open>G\<close> at \<open>(end + 0.5 - mean) / sigma\<close> minus the clipped value at
  \<open>(start - 0.5 - mean) / sigma\<close>; for \<open>end < start - 1\<close> there are no probabilities
  and the sum is 0. On every input the sum lies in \<open>[-1, 1]\<close>: it never exceeds 1,
  and it is negative when the clipped \<open>G\<close> is smaller at the upper end than at
  the lower.
\<close>

theorem compute_pmf_approximation_total_mass:
  "let lower = max 0 \<lfloor>mean - 8 * sigma\<rfloor>;
       upper = min n (round_half_even (mean + 8 * sigma));
       r = compute_pmf_approximation cdf pdf mean sigma skewness n
   in (sigma \<noteq> 0 \<and> lower - 1 \<le> upper \<longrightarrow>
         sum_list (probabilities r)
           = np_clip (G cdf pdf skewness ((of_int upper + 0.5 - mean) / sigma)) 0 1
             - np_clip (G cdf pdf skewness ((of_int lower - 0.5 - mean) / sigma)) 0 1)
      \<and> (sigma \<noteq> 0 \<and> upper < lower - 1 \<longrightarrow> sum_list (probabilities r) = 0)
      \<and> - 1 \<le> sum_list (probabilities r)
      \<and> sum_list (probabilities r) \<le> 1"
proof -
  define lower where "lower = max 0 \<lfloor>mean - 8 * sigma\<rfloor>"
  define upper where "upper = min n (round_half_even (mean + 8 * sigma))"
  define cg where "cg = (\<lambda>k::int. np_clip (G cdf pdf skewness ((of_int k + 0.5 - mean) / sigma)) 0 1)"
  define r where "r = compute_pmf_approximation cdf pdf mean sigma skewness n"
  have r: "probabilities r = np_diff (map cg (np_arange (lower - 1) (upper + 1)))"
    if "sigma \<noteq> 0"
    unfolding r_def lower_def upper_def cg_def approximation_general [OF that] by simp
  have cg_bounds: "0 \<le> cg k \<and> cg k \<le> 1" for k
    unfolding cg_def by (rule np_clip_bounds)
  have tele: "sum_list (probabilities r) = cg upper - cg (lower - 1)"
    if "sigma \<noteq> 0" "lower - 1 \<le> upper"
  proof -
    have "lower - 1 < upper + 1" using that(2) by simp
    then have "sum_list (np_diff (map cg (np_arange (lower - 1) (upper + 1))))
                 = cg (upper + 1 - 1) - cg (lower - 1)"
      by (rule sum_list_np_diff_map_arange)
    then show ?thesis by (simp add: r [OF that(1)])
  qed
  have empty: "sum_list (probabilities r) = 0" if "sigma \<noteq> 0" "upper < lower - 1"
  proof -
    have "upper + 1 \<le> lower - 1" using that(2) by simp
    then have "np_diff (map cg (np_arange (lower - 1) (upper + 1))) = []"
      by (rule np_diff_map_arange_empty)
    then show ?thesis by (simp add: r [OF that(1)])
  qed
  have bounds: "- 1 \<le> sum_list (probabilities r) \<and> sum_list (probabilities r) \<le> 1"
  proof (cases "sigma = 0")
    case True
    then show ?thesis by (simp add: r_def compute_pmf_approximation_def)
  next
    case False
    show ?thesis
    proof (cases "lower - 1 \<le> upper")
      case True
      show ?thesis
        unfolding tele [OF False True]
        using cg_bounds [of upper] cg_bounds [of "lower - 1"] by linarith
    next
      case False
      then have "upper < lower - 1" by simp
      with \<open>sigma \<noteq> 0\<close> show ?thesis by (simp add: empty)
    qed
  qed
  have arg: "(of_int (lower - 1) + 0.5 - mean) / sigma = (of_int lower - 0.5 - mean) / sigma"
    by simp
  show ?thesis
    unfolding Let_def lower_def [symmetric] upper_def [symmetric] r_def [symmetric]
    using tele empty bounds by (simp add: cg_def arg)
qed

theorem compute_pmf_approximation_total_mass_witness:
  "(1 / 8 :: real) \<noteq> 0
   \<and> max 0 \<lfloor>1 - 8 * (1 / 8 :: real)\<rfloor> - 1 \<le> min 2 (round_half_even (1 + 8 * (1 / 8)))
   \<and> sum_list (probabilities (compute_pmf_approximation norm_cdf norm_pdf 1 (1 / 8) 0 2))
       = np_clip (G norm_cdf norm_pdf 0 12) 0 1 - np_clip (G norm_cdf norm_pdf 0 (- 12)) 0 1
   \<and> min (- 5) (round_half_even (1 + 8 * (1 / 8))) < max 0 \<lfloor>1 - 8 * (1 / 8 :: real)\<rfloor> - 1
   \<and> sum_list (probabilities (compute_pmf_approximation norm_cdf norm_pdf 1 (1 / 8) 0 (- 5))) = 0"
proof -
  have l: "max 0 \<lfloor>1 - 8 * (1 / 8 :: real)\<rfloor> = 0" by simp
  have u: "min 2 (round_half_even (1 + 8 * (1 / 8))) = 2"
    by (simp add: round_half_even_def)
  have u': "min (- 5) (round_half_even (1 + 8 * (1 / 8))) = - 5"
    by (simp add: round_half_even_def)
  show ?thesis
    using compute_pmf_approximation_total_mass [of "1" "1 / 8" 2 norm_cdf norm_pdf 0]
      compute_pmf_approximation_total_mass [of "1" "1 / 8" "- 5" norm_cdf norm_pdf 0]
    unfolding Let_def l u u'
    by simp
qed

end
